theory Spec2Isabelle
  imports Complex_Main
begin

section \<open>The playtest simulation of GameSimulation.tsx\<close>

text \<open>
  The development embeds the simulation core of \<^verbatim>\<open>src/components/GameSimulation.tsx\<close>:
  the board path (\<^verbatim>\<open>spaces\<close>), the sound cues (\<^verbatim>\<open>playSfx\<close>), and the three operations
  on the game state (\<^verbatim>\<open>handleRoll\<close>, \<^verbatim>\<open>drawCard\<close>, \<^verbatim>\<open>resetGame\<close>).

  Conventions of the embedding.
  \<^item> JavaScript numbers that hold integers (positions, turns, indices) are \<open>int\<close> or \<open>nat\<close>;
    numbers that hold fractions (coordinates, the results of \<^verbatim>\<open>Math.random()\<close>) are exact
    \<open>real\<close>s, so the rounding of IEEE doubles is not part of the model.
  \<^item> Strings are \<open>string\<close>; a character outside ASCII is written as its UTF-8 bytes.
  \<^item> \<^verbatim>\<open>null\<close> and \<^verbatim>\<open>undefined\<close> are \<open>None\<close>.
  \<^item> A JavaScript exception is the \<open>Inl\<close> of a sum type.
  \<^item> Each call of \<^verbatim>\<open>Math.random()\<close> is an explicit argument.
\<close>

subsection \<open>Data model (types.ts and the GameState interface)\<close>

record TileType =
  name :: string
  effect :: string
  color :: string

record CardType =
  type :: string
  description :: string
  examples :: "string list"

record SourceRef =
  src_title :: string
  uri :: string

record GameDesign =
  title :: string
  overview :: string
  goal :: string
  story :: string
  boardDesign :: string
  tileTypes :: "TileType list"
  components :: "string list"
  cardTypes :: "CardType list"
  rules :: "string list"
  gameplay :: "string list"
  winningCondition :: string
  reward :: string
  learningOutcomes :: "string list"
  sources :: "SourceRef list option"

text \<open>The object \<^verbatim>\<open>{ type: string, content: string }\<close> held by \<^verbatim>\<open>drawnCard\<close>. The content is
  read from an array by index, so it can be \<^verbatim>\<open>undefined\<close> at run time.\<close>

record DrawnCard =
  type_drawn :: string
  content :: "string option"

record GameState =
  playerPosition :: int
  log_entries :: "string list"
  turn :: int
  isGameOver :: bool
  currentEffect :: "string option"
  drawnCard :: "DrawnCard option"

text \<open>The three pieces of React state of the component.\<close>

record Sim =
  gameState :: GameState
  isRolling :: bool
  soundEnabled :: bool

definition TOTAL_SPACES :: nat where
  "TOTAL_SPACES = 24"

subsection \<open>The board path\<close>

datatype SpaceType = START | FINISH | NORMAL

record BoardSpace =
  x_space :: real
  y_space :: real
  type_space :: SpaceType
  tileDetails :: "TileType option"

text \<open>\<^verbatim>\<open>design.tileTypes[i % design.tileTypes.length]\<close>: with an empty array the index is
  \<^verbatim>\<open>NaN\<close> and the read gives \<^verbatim>\<open>undefined\<close>.\<close>

definition tile_for :: "TileType list \<Rightarrow> nat \<Rightarrow> TileType option" where
  "tile_for ts i = (if length ts = 0 then None else Some (ts ! (i mod length ts)))"

text \<open>The body of the \<^verbatim>\<open>for\<close> loop: the object pushed for index \<open>i\<close>.\<close>

definition space_at :: "GameDesign \<Rightarrow> nat \<Rightarrow> BoardSpace" where
  "space_at design i =
     (let rows = (4::nat);
          cols = (6::nat);
          row = i div cols;
          col = i mod cols;
          actualCol = (if row mod 2 = 0 then col else cols - 1 - col)
      in \<lparr> x_space = (real actualCol / real (cols - 1)) * 80 + 10,
           y_space = 90 - (real row / real (rows - 1)) * 80,
           type_space = (if i = 0 then START
                         else if i = TOTAL_SPACES - 1 then FINISH else NORMAL),
           tileDetails = (if i = 0 \<or> i = TOTAL_SPACES - 1 then None
                          else tile_for (tileTypes design) i) \<rparr>)"

definition spaces :: "GameDesign \<Rightarrow> BoardSpace list" where
  "spaces design = map (space_at design) [0..<TOTAL_SPACES]"

subsection \<open>Strings\<close>

text \<open>\<^verbatim>\<open>String.prototype.toLowerCase\<close> on the ASCII letters. JavaScript also lowers capitals
  outside ASCII; none of them becomes one of the letters \<^verbatim>\<open>c\<close>, \<^verbatim>\<open>a\<close>, \<^verbatim>\<open>r\<close>, \<^verbatim>\<open>d\<close>,
  which are the only ones the program looks for in a lowered string.\<close>

definition toLowerChar :: "char \<Rightarrow> char" where
  "toLowerChar c =
     (case map_of (zip ''ABCDEFGHIJKLMNOPQRSTUVWXYZ'' ''abcdefghijklmnopqrstuvwxyz'') c of
        None \<Rightarrow> c
      | Some l \<Rightarrow> l)"

definition toLowerCase :: "string \<Rightarrow> string" where
  "toLowerCase s = map toLowerChar s"

fun starts_with :: "string \<Rightarrow> string \<Rightarrow> bool" where
  "starts_with s [] = True"
| "starts_with [] (c # cs) = False"
| "starts_with (a # as) (c # cs) = (a = c \<and> starts_with as cs)"

text \<open>\<^verbatim>\<open>String.prototype.includes\<close>: the search string occurs at some offset.\<close>

fun includes_str :: "string \<Rightarrow> string \<Rightarrow> bool" where
  "includes_str [] sub = (sub = [])"
| "includes_str (c # cs) sub = (starts_with (c # cs) sub \<or> includes_str cs sub)"

definition digit_char :: "nat \<Rightarrow> char" where
  "digit_char d = ''0123456789'' ! d"

function string_of_nat :: "nat \<Rightarrow> string" where
  "string_of_nat n =
     (if n < 10 then [digit_char n] else string_of_nat (n div 10) @ [digit_char (n mod 10)])"
  by pat_completeness auto
termination
  by (relation "measure (\<lambda>n. n)") auto

text \<open>The text a template literal gives for an integer-valued number.\<close>

definition string_of_int :: "int \<Rightarrow> string" where
  "string_of_int i = (if i < 0 then ''-'' @ string_of_nat (nat (- i)) else string_of_nat (nat i))"

text \<open>The text a template literal gives for a string that may be \<^verbatim>\<open>undefined\<close>.\<close>

definition string_of_opt :: "string option \<Rightarrow> string" where
  "string_of_opt v = (case v of None \<Rightarrow> ''undefined'' | Some s \<Rightarrow> s)"

text \<open>The four pictographs of the log lines, as UTF-8: U+1F3B2 (die), U+1F3C6 (trophy),
  U+1F4CD (pin) and U+1F3B4 (playing cards).\<close>

definition emoji_die :: string where
  "emoji_die = [CHR 0xF0, CHR 0x9F, CHR 0x8E, CHR 0xB2]"

definition emoji_trophy :: string where
  "emoji_trophy = [CHR 0xF0, CHR 0x9F, CHR 0x8F, CHR 0x86]"

definition emoji_pin :: string where
  "emoji_pin = [CHR 0xF0, CHR 0x9F, CHR 0x93, CHR 0x8D]"

definition emoji_cards :: string where
  "emoji_cards = [CHR 0xF0, CHR 0x9F, CHR 0x8E, CHR 0xB4]"

subsection \<open>Exceptions\<close>

datatype exn = TypeError | AudioError nat

text \<open>Sequencing of two computations, the first of which may throw.\<close>

definition exn_bind :: "exn + 'a \<Rightarrow> ('a \<Rightarrow> exn + 'b) \<Rightarrow> exn + 'b" where
  "exn_bind m f = (case m of Inl e \<Rightarrow> Inl e | Inr v \<Rightarrow> f v)"

text \<open>Reading \<^verbatim>\<open>xs[i]\<close> and then a property of the element: outside the array the element
  is \<^verbatim>\<open>undefined\<close> and the property access throws a TypeError.\<close>

definition element_at :: "'a list \<Rightarrow> int \<Rightarrow> exn + 'a" where
  "element_at xs i = (if 0 \<le> i \<and> i < int (length xs) then Inr (xs ! nat i) else Inl TypeError)"

text \<open>Reading \<^verbatim>\<open>xs[i]\<close> as a value: outside the array it is \<^verbatim>\<open>undefined\<close>.\<close>

definition value_at :: "'a list \<Rightarrow> int \<Rightarrow> 'a option" where
  "value_at xs i = (if 0 \<le> i \<and> i < int (length xs) then Some (xs ! nat i) else None)"

subsection \<open>Audio cues (playSfx)\<close>

datatype SfxType = Sfx_roll | Sfx_move | Sfx_card | Sfx_win | Sfx_tile

datatype OscillatorType = Square | Sine | Triangle

text \<open>The calls that \<^verbatim>\<open>playSfx\<close> makes on the Web Audio interface, in the order of the source.
  The two reals of a parameter call are its value and its time.\<close>

datatype audio_op =
    LookupAudioContext
  | NewAudioContext
  | ReadCurrentTime
  | CreateOscillator
  | CreateGain
  | ConnectOscToGain
  | ConnectGainToDestination
  | SetOscType OscillatorType
  | FreqSetValueAtTime real real
  | FreqExponentialRamp real real
  | FreqLinearRamp real real
  | GainSetValueAtTime real real
  | GainExponentialRamp real real
  | GainLinearRamp real real
  | OscStart real
  | OscStop real

text \<open>The environment of a cue: whether \<^verbatim>\<open>window.AudioContext || window.webkitAudioContext\<close>
  is truthy, the clock of a new context, and which calls throw (by position in the
  invocation and by call).\<close>

record AudioEnv =
  has_AudioContext :: bool
  currentTime :: real
  throws :: "nat \<Rightarrow> audio_op \<Rightarrow> bool"

definition createOsc :: "OscillatorType \<Rightarrow> real \<Rightarrow> real \<Rightarrow> real \<Rightarrow> real \<Rightarrow> audio_op list" where
  "createOsc ty freq startTime duration vol =
     [CreateOscillator, CreateGain, ConnectOscToGain, ConnectGainToDestination,
      SetOscType ty,
      FreqSetValueAtTime freq startTime,
      GainSetValueAtTime vol startTime,
      GainExponentialRamp 0.01 (startTime + duration),
      OscStart startTime,
      OscStop (startTime + duration)]"

text \<open>The \<^verbatim>\<open>switch\<close> of \<^verbatim>\<open>playSfx\<close>.\<close>

fun cue_ops :: "SfxType \<Rightarrow> real \<Rightarrow> audio_op list" where
  "cue_ops Sfx_roll now =
     createOsc Square 150 now 0.1 0.1
     @ createOsc Square 120 (now + 0.08) 0.1 0.1
     @ createOsc Square 100 (now + 0.16) 0.2 0.08"
| "cue_ops Sfx_move now =
     [CreateOscillator, CreateGain, ConnectOscToGain, ConnectGainToDestination,
      SetOscType Sine,
      FreqSetValueAtTime 600 now,
      FreqExponentialRamp 100 (now + 0.15),
      GainSetValueAtTime 0.15 now,
      GainExponentialRamp 0.01 (now + 0.15),
      OscStart now,
      OscStop (now + 0.15)]"
| "cue_ops Sfx_card now =
     [CreateOscillator, CreateGain, ConnectOscToGain, ConnectGainToDestination,
      SetOscType Triangle,
      FreqSetValueAtTime 800 now,
      FreqLinearRamp 1200 (now + 0.1),
      GainSetValueAtTime 0.05 now,
      GainLinearRamp 0 (now + 0.1),
      OscStart now,
      OscStop (now + 0.1)]"
| "cue_ops Sfx_tile now = createOsc Sine 880 now 0.8 0.1"
| "cue_ops Sfx_win now =
     concat (map (\<lambda>(freq, i). createOsc Triangle freq (now + real i * 0.1) 0.6 0.1)
                 (zip [523.25, 659.25, 783.99, 1046.50] [0..<4]))"

text \<open>Running the calls in order; the first one that throws ends the run.\<close>

fun run_ops :: "(nat \<Rightarrow> audio_op \<Rightarrow> bool) \<Rightarrow> nat \<Rightarrow> audio_op list \<Rightarrow> exn + unit" where
  "run_ops th k [] = Inr ()"
| "run_ops th k (c # cs) = (if th k c then Inl (AudioError k) else run_ops th (Suc k) cs)"

text \<open>The \<^verbatim>\<open>try\<close> block of \<^verbatim>\<open>playSfx\<close>.\<close>

definition playSfx_try :: "AudioEnv \<Rightarrow> SfxType \<Rightarrow> exn + unit" where
  "playSfx_try env ty =
     (if throws env 0 LookupAudioContext then Inl (AudioError 0)
      else if \<not> has_AudioContext env then Inr ()
      else run_ops (throws env) 1
             (NewAudioContext # ReadCurrentTime # cue_ops ty (currentTime env)))"

text \<open>\<^verbatim>\<open>playSfx\<close>: the \<^verbatim>\<open>catch\<close> clause writes to the console and falls through.\<close>

definition playSfx :: "AudioEnv \<Rightarrow> SfxType \<Rightarrow> exn + unit" where
  "playSfx env ty = (case playSfx_try env ty of Inl e \<Rightarrow> Inr () | Inr u \<Rightarrow> Inr u)"

text \<open>\<^verbatim>\<open>if (soundEnabled) playSfx(ty)\<close>.\<close>

definition sfx :: "AudioEnv \<Rightarrow> Sim \<Rightarrow> SfxType \<Rightarrow> exn + unit" where
  "sfx env sim ty = (if soundEnabled sim then playSfx env ty else Inr ())"

subsection \<open>State updates\<close>

text \<open>\<^verbatim>\<open>setGameState(updater)\<close>: React applies the queued updaters in the order of the
  calls, each one to the state the previous one left.\<close>

definition setGameState :: "(GameState \<Rightarrow> GameState) \<Rightarrow> Sim \<Rightarrow> Sim" where
  "setGameState updater sim = sim\<lparr>gameState := updater (gameState sim)\<rparr>"

definition addToLog :: "string \<Rightarrow> Sim \<Rightarrow> Sim" where
  "addToLog message sim =
     setGameState (\<lambda>prev. prev\<lparr>log_entries := message # log_entries prev\<rparr>) sim"

definition initialGameState :: GameState where
  "initialGameState =
     \<lparr> playerPosition = 0,
       log_entries = [''Welcome to the Playtest! Roll the dice to begin.''],
       turn = 1,
       isGameOver = False,
       currentEffect = None,
       drawnCard = None \<rparr>"

definition initialSim :: Sim where
  "initialSim = \<lparr> gameState = initialGameState, isRolling = False, soundEnabled = True \<rparr>"

definition resetGame :: "Sim \<Rightarrow> Sim" where
  "resetGame sim =
     sim\<lparr>gameState :=
          \<lparr> playerPosition = 0,
            log_entries = [''Game reset. Ready to start!''],
            turn = 1,
            isGameOver = False,
            currentEffect = None,
            drawnCard = None \<rparr>\<rparr>"

subsection \<open>Log lines\<close>

definition msg_finish :: "int \<Rightarrow> string" where
  "msg_finish roll = emoji_die @ '' Rolled a '' @ string_of_int roll @ ''. Reached the Finish!''"

definition msg_win :: "GameDesign \<Rightarrow> string" where
  "msg_win design = emoji_trophy @ '' '' @ winningCondition design"

definition msg_moved :: "int \<Rightarrow> int \<Rightarrow> string" where
  "msg_moved roll newPosition =
     emoji_die @ '' Rolled a '' @ string_of_int roll @ ''. Moved to space ''
       @ string_of_int (newPosition + 1) @ ''.''"

definition msg_tile :: "TileType \<Rightarrow> string" where
  "msg_tile tile = emoji_pin @ '' Landed on '' @ name tile @ '': '' @ effect tile"

definition msg_card :: "CardType \<Rightarrow> string option \<Rightarrow> string" where
  "msg_card randomCardType randomExample =
     emoji_cards @ '' Drew a '' @ type randomCardType @ '': '' @ [CHR 0x22]
       @ string_of_opt randomExample @ [CHR 0x22]"

subsection \<open>drawCard\<close>

text \<open>The two reals are the results of the two calls of \<^verbatim>\<open>Math.random()\<close>.\<close>

definition drawCard :: "AudioEnv \<Rightarrow> GameDesign \<Rightarrow> real \<Rightarrow> real \<Rightarrow> Sim \<Rightarrow> exn + Sim" where
  "drawCard env design v1 v2 sim =
     (if length (cardTypes design) = 0 then Inr sim
      else
        exn_bind (sfx env sim Sfx_card) (\<lambda>_.
        exn_bind (element_at (cardTypes design)
                    \<lfloor>v1 * real (length (cardTypes design))\<rfloor>) (\<lambda>randomCardType.
        let randomExample =
              value_at (examples randomCardType)
                \<lfloor>v2 * real (length (examples randomCardType))\<rfloor>;
            s1 = setGameState
                   (\<lambda>prev. prev\<lparr>drawnCard :=
                      Some \<lparr> type_drawn = type randomCardType, content = randomExample \<rparr>\<rparr>) sim
        in Inr (addToLog (msg_card randomCardType randomExample) s1))))"

subsection \<open>handleRoll\<close>

text \<open>The branch on the new position (lines 174 to 183): the position after clamping and
  the state after the updates of the branch. \<open>sim\<close> is the state the handler closed over,
  \<open>s\<close> the state the queued updates apply to.\<close>

definition move_or_finish ::
  "AudioEnv \<Rightarrow> GameDesign \<Rightarrow> Sim \<Rightarrow> int \<Rightarrow> int \<Rightarrow> Sim \<Rightarrow> exn + (int \<times> Sim)" where
  "move_or_finish env design sim roll newPosition s =
     (if newPosition \<ge> int TOTAL_SPACES - 1 then
        let s1 = setGameState (\<lambda>prev. prev\<lparr>isGameOver := True\<rparr>) s in
        exn_bind (sfx env sim Sfx_win) (\<lambda>_.
        let s2 = addToLog (msg_finish roll) s1;
            s3 = addToLog (msg_win design) s2
        in Inr (int TOTAL_SPACES - 1, s3))
      else
        exn_bind (sfx env sim Sfx_move) (\<lambda>_.
        Inr (newPosition, addToLog (msg_moved roll newPosition) s)))"

text \<open>The tile effect (lines 193 to 205): the state and whether \<^verbatim>\<open>setTimeout(drawCard, 500)\<close>
  was called. \<open>u2\<close> is the result of \<^verbatim>\<open>Math.random()\<close>.\<close>

definition tile_effect ::
  "AudioEnv \<Rightarrow> GameDesign \<Rightarrow> Sim \<Rightarrow> real \<Rightarrow> int \<Rightarrow> Sim \<Rightarrow> exn + (Sim \<times> bool)" where
  "tile_effect env design sim u2 newPosition s =
     (if newPosition < int TOTAL_SPACES - 1 \<and> newPosition > 0 then
        exn_bind (element_at (spaces design) newPosition) (\<lambda>space.
        case tileDetails space of
          None \<Rightarrow> Inr (s, False)
        | Some tile \<Rightarrow>
            let s1 = setGameState (\<lambda>prev. prev\<lparr>currentEffect := Some (effect tile)\<rparr>) s in
            exn_bind (sfx env sim Sfx_tile) (\<lambda>_.
            let s2 = addToLog (msg_tile tile) s1
            in Inr (s2, u2 < 0.3 \<or> includes_str (toLowerCase (effect tile)) ''card'')))
      else Inr (s, False))"

text \<open>\<^verbatim>\<open>handleRoll\<close>, run from the click to its end with no other event in between.
  \<open>u1\<close> is the \<^verbatim>\<open>Math.random()\<close> of the die, \<open>u2\<close> the one of the card chance. The result is
  the state and whether a card draw was scheduled; a rejected click returns the state as
  it is.\<close>

definition handleRoll ::
  "AudioEnv \<Rightarrow> GameDesign \<Rightarrow> real \<Rightarrow> real \<Rightarrow> Sim \<Rightarrow> exn + (Sim \<times> bool)" where
  "handleRoll env design u1 u2 sim =
     (if isGameOver (gameState sim) \<or> isRolling sim then Inr (sim, False)
      else
        let s1 = sim\<lparr>isRolling := True\<rparr> in
        exn_bind (sfx env sim Sfx_roll) (\<lambda>_.
        let s2 = setGameState (\<lambda>prev. prev\<lparr>currentEffect := None, drawnCard := None\<rparr>) s1;
            roll = \<lfloor>u1 * 6\<rfloor> + 1;
            newPosition = playerPosition (gameState sim) + roll
        in
        exn_bind (move_or_finish env design sim roll newPosition s2) (\<lambda>(newPosition, s3).
        let s4 = setGameState
                   (\<lambda>prev. prev\<lparr>playerPosition := newPosition, turn := turn prev + 1\<rparr>) s3;
            s5 = s4\<lparr>isRolling := False\<rparr>
        in tile_effect env design sim u2 newPosition s5)))"

subsection \<open>The specification's reading of the card test\<close>

text \<open>The specification says that the effect text "contains the substring card,
  case-insensitively": somewhere in the text four consecutive characters are the letters
  c, a, r, d, each in either case. This is the specification's wording, to be compared
  with the test \<^verbatim>\<open>tile.effect.toLowerCase().includes('card')\<close> of the source.\<close>

definition contains_card_ci :: "string \<Rightarrow> bool" where
  "contains_card_ci e =
     (\<exists>pre suf c1 c2 c3 c4.
        e = pre @ [c1, c2, c3, c4] @ suf
        \<and> (c1 = CHR ''c'' \<or> c1 = CHR ''C'')
        \<and> (c2 = CHR ''a'' \<or> c2 = CHR ''A'')
        \<and> (c3 = CHR ''r'' \<or> c3 = CHR ''R'')
        \<and> (c4 = CHR ''d'' \<or> c4 = CHR ''D''))"

subsection \<open>Concrete inputs\<close>

text \<open>The design of the specification's scenarios: two tile types and two card types.\<close>

definition scenario_tiles :: "TileType list" where
  "scenario_tiles =
     [\<lparr> name = ''Recycle'', effect = ''Draw a card'', color = ''#00ff00'' \<rparr>,
      \<lparr> name = ''Litter'', effect = ''Lose a turn'', color = ''#ff0000'' \<rparr>]"

definition scenario_cards :: "CardType list" where
  "scenario_cards =
     [\<lparr> type = ''A'', description = ''first'', examples = [''a1'', ''a2''] \<rparr>,
      \<lparr> type = ''B'', description = ''second'', examples = [''b1''] \<rparr>]"

definition design_with :: "TileType list \<Rightarrow> CardType list \<Rightarrow> GameDesign" where
  "design_with ts cs =
     \<lparr> title = ''Clean Streets'', overview = [], goal = [], story = [], boardDesign = [],
       tileTypes = ts, components = [], cardTypes = cs, rules = [], gameplay = [],
       winningCondition = ''First to the finish wins'', reward = [], learningOutcomes = [],
       sources = None \<rparr>"

definition scenario_design :: GameDesign where
  "scenario_design = design_with scenario_tiles scenario_cards"

text \<open>A browser without Web Audio, and one whose sixth audio call throws.\<close>

definition no_audio :: AudioEnv where
  "no_audio = \<lparr> has_AudioContext = False, currentTime = 0, throws = (\<lambda>k c. False) \<rparr>"

definition failing_audio :: AudioEnv where
  "failing_audio = \<lparr> has_AudioContext = True, currentTime = 0, throws = (\<lambda>k c. k = 5) \<rparr>"

text \<open>The opening state with the token moved to a given space.\<close>

definition sim_at :: "int \<Rightarrow> Sim" where
  "sim_at p = initialSim\<lparr>gameState := initialGameState\<lparr>playerPosition := p\<rparr>\<rparr>"

text \<open>A design whose only card type has no examples.\<close>

definition design_no_examples :: GameDesign where
  "design_no_examples =
     design_with scenario_tiles [\<lparr> type = ''A'', description = ''first'', examples = [] \<rparr>]"

text \<open>A finished game.\<close>

definition sim_over :: Sim where
  "sim_over =
     initialSim\<lparr>gameState := initialGameState\<lparr>playerPosition := 23, isGameOver := True\<rparr>\<rparr>"

section \<open>Properties\<close>

subsection \<open>Auxiliary facts\<close>

lemma playSfx_returns: "playSfx env ty = Inr ()"
  by (simp add: playSfx_def split: sum.splits)

lemma sfx_returns: "sfx env sim ty = Inr ()"
  by (simp add: sfx_def playSfx_returns)

lemma length_spaces: "length (spaces design) = 24"
  by (simp add: spaces_def TOTAL_SPACES_def)

lemma nth_spaces: "i < 24 \<Longrightarrow> spaces design ! i = space_at design i"
  by (simp add: spaces_def TOTAL_SPACES_def)

lemma element_at_spaces:
  "0 < n \<Longrightarrow> n < 23 \<Longrightarrow> element_at (spaces design) n = Inr (space_at design (nat n))"
  by (simp add: element_at_def length_spaces nth_spaces)

lemma tileDetails_space_at:
  "0 < i \<Longrightarrow> i < 23 \<Longrightarrow> tileDetails (space_at design i) = tile_for (tileTypes design) i"
  by (simp add: space_at_def TOTAL_SPACES_def Let_def)

lemma isRolling_False_id: "\<not> isRolling sim \<Longrightarrow> sim\<lparr>isRolling := False\<rparr> = sim"
  by (cases sim) simp

lemma starts_with_iff: "starts_with s sub \<longleftrightarrow> (\<exists>suf. s = sub @ suf)"
  by (induction s sub rule: starts_with.induct) auto

lemma includes_str_iff: "includes_str s sub \<longleftrightarrow> (\<exists>pre suf. s = pre @ sub @ suf)"
proof (induction s)
  case Nil
  show ?case by auto
next
  case (Cons c cs)
  show ?case
  proof
    assume "includes_str (c # cs) sub"
    then consider "starts_with (c # cs) sub" | "includes_str cs sub" by auto
    then show "\<exists>pre suf. c # cs = pre @ sub @ suf"
    proof cases
      case 1
      then obtain suf where "c # cs = sub @ suf" by (auto simp: starts_with_iff)
      then have "c # cs = [] @ sub @ suf" by simp
      then show ?thesis by blast
    next
      case 2
      then obtain pre suf where "cs = pre @ sub @ suf" using Cons.IH by auto
      then have "c # cs = (c # pre) @ sub @ suf" by simp
      then show ?thesis by blast
    qed
  next
    assume "\<exists>pre suf. c # cs = pre @ sub @ suf"
    then obtain pre suf where eq: "c # cs = pre @ sub @ suf" by blast
    show "includes_str (c # cs) sub"
    proof (cases pre)
      case Nil
      with eq have "starts_with (c # cs) sub" by (auto simp: starts_with_iff)
      then show ?thesis by simp
    next
      case (Cons p ps)
      with eq have "cs = ps @ sub @ suf" by simp
      then have "includes_str cs sub" using Cons.IH by blast
      then show ?thesis by simp
    qed
  qed
qed

lemma toLowerChar_c: "toLowerChar x = CHR ''c'' \<longleftrightarrow> x = CHR ''c'' \<or> x = CHR ''C''"
  by (auto simp add: toLowerChar_def split: if_splits)

lemma toLowerChar_a: "toLowerChar x = CHR ''a'' \<longleftrightarrow> x = CHR ''a'' \<or> x = CHR ''A''"
  by (auto simp add: toLowerChar_def split: if_splits)

lemma toLowerChar_r: "toLowerChar x = CHR ''r'' \<longleftrightarrow> x = CHR ''r'' \<or> x = CHR ''R''"
  by (auto simp add: toLowerChar_def split: if_splits)

lemma toLowerChar_d: "toLowerChar x = CHR ''d'' \<longleftrightarrow> x = CHR ''d'' \<or> x = CHR ''D''"
  by (auto simp add: toLowerChar_def split: if_splits)

text \<open>The test of the source is the specification's reading of it.\<close>

lemma includes_card_iff:
  "includes_str (toLowerCase e) ''card'' \<longleftrightarrow> contains_card_ci e"
proof
  assume "includes_str (toLowerCase e) ''card''"
  then obtain pre suf where "map toLowerChar e = pre @ ''card'' @ suf"
    by (auto simp: includes_str_iff toLowerCase_def)
  then obtain us c1 c2 c3 c4 zs where e: "e = us @ c1 # c2 # c3 # c4 # zs"
    and c: "CHR ''c'' = toLowerChar c1" "CHR ''a'' = toLowerChar c2"
           "CHR ''r'' = toLowerChar c3" "CHR ''d'' = toLowerChar c4"
    by (auto simp: map_eq_append_conv)
  have "e = us @ [c1, c2, c3, c4] @ zs" using e by simp
  moreover have "toLowerChar c1 = CHR ''c''" "toLowerChar c2 = CHR ''a''"
    "toLowerChar c3 = CHR ''r''" "toLowerChar c4 = CHR ''d''"
    using c by simp_all
  ultimately show "contains_card_ci e"
    unfolding contains_card_ci_def toLowerChar_c toLowerChar_a toLowerChar_r toLowerChar_d
    by blast
next
  assume "contains_card_ci e"
  then obtain pre suf c1 c2 c3 c4 where e: "e = pre @ [c1, c2, c3, c4] @ suf"
    and c: "toLowerChar c1 = CHR ''c''" "toLowerChar c2 = CHR ''a''"
        "toLowerChar c3 = CHR ''r''" "toLowerChar c4 = CHR ''d''"
    unfolding contains_card_ci_def toLowerChar_c toLowerChar_a toLowerChar_r toLowerChar_d
    by blast
  have "toLowerCase e = map toLowerChar pre @ ''card'' @ map toLowerChar suf"
    using e c by (simp add: toLowerCase_def)
  then show "includes_str (toLowerCase e) ''card''"
    unfolding includes_str_iff by blast
qed

text \<open>What an accepted roll returns, by the branch it takes.\<close>

lemma handleRoll_rejected:
  "isGameOver (gameState sim) \<or> isRolling sim \<Longrightarrow> handleRoll env design u1 u2 sim = Inr (sim, False)"
  by (simp add: handleRoll_def)

lemma handleRoll_finish:
  assumes "\<not> isGameOver (gameState sim)" "\<not> isRolling sim"
    and "23 \<le> playerPosition (gameState sim) + (\<lfloor>u1 * 6\<rfloor> + 1)"
  shows "handleRoll env design u1 u2 sim =
     Inr (sim\<lparr>gameState := (gameState sim)
            \<lparr>playerPosition := 23,
              log_entries := msg_win design # msg_finish (\<lfloor>u1 * 6\<rfloor> + 1)
                               # log_entries (gameState sim),
              turn := turn (gameState sim) + 1,
              isGameOver := True,
              currentEffect := None,
              drawnCard := None\<rparr>\<rparr>, False)"
  using assms
  by (cases sim) (simp add: handleRoll_def move_or_finish_def tile_effect_def sfx_returns
      exn_bind_def setGameState_def addToLog_def TOTAL_SPACES_def Let_def)

lemma handleRoll_moved_plain:
  assumes "\<not> isGameOver (gameState sim)" "\<not> isRolling sim"
    and "np = playerPosition (gameState sim) + (\<lfloor>u1 * 6\<rfloor> + 1)"
    and "np < 23"
    and "np \<le> 0 \<or> tile_for (tileTypes design) (nat np) = None"
  shows "handleRoll env design u1 u2 sim =
     Inr (sim\<lparr>gameState := (gameState sim)
            \<lparr>playerPosition := np,
              log_entries := msg_moved (\<lfloor>u1 * 6\<rfloor> + 1) np # log_entries (gameState sim),
              turn := turn (gameState sim) + 1,
              currentEffect := None,
              drawnCard := None\<rparr>\<rparr>, False)"
proof (cases "0 < np")
  case True
  then have t: "tileDetails (space_at design (nat np)) = None"
    using assms(4,5) by (simp add: tileDetails_space_at)
  show ?thesis
    using assms(1-4) True t
    by (cases sim) (simp add: handleRoll_def move_or_finish_def tile_effect_def sfx_returns
      exn_bind_def setGameState_def addToLog_def TOTAL_SPACES_def Let_def element_at_spaces)
next
  case False
  then show ?thesis
    using assms(1-4)
    by (cases sim) (simp add: handleRoll_def move_or_finish_def tile_effect_def sfx_returns
      exn_bind_def setGameState_def addToLog_def TOTAL_SPACES_def Let_def)
qed

lemma handleRoll_moved_tile:
  assumes "\<not> isGameOver (gameState sim)" "\<not> isRolling sim"
    and "np = playerPosition (gameState sim) + (\<lfloor>u1 * 6\<rfloor> + 1)"
    and "0 < np" "np < 23"
    and "tile_for (tileTypes design) (nat np) = Some tile"
  shows "handleRoll env design u1 u2 sim =
     Inr (sim\<lparr>gameState := (gameState sim)
            \<lparr>playerPosition := np,
              log_entries := msg_tile tile # msg_moved (\<lfloor>u1 * 6\<rfloor> + 1) np
                               # log_entries (gameState sim),
              turn := turn (gameState sim) + 1,
              currentEffect := Some (effect tile),
              drawnCard := None\<rparr>\<rparr>,
          u2 < 0.3 \<or> includes_str (toLowerCase (effect tile)) ''card'')"
proof -
  have t: "tileDetails (space_at design (nat np)) = Some tile"
    using assms(4-6) by (simp add: tileDetails_space_at)
  show ?thesis
    using assms(1-5) t
    by (cases sim) (simp add: handleRoll_def move_or_finish_def tile_effect_def sfx_returns
      exn_bind_def setGameState_def addToLog_def TOTAL_SPACES_def Let_def element_at_spaces)
qed

lemma die_range: "0 \<le> u \<Longrightarrow> u < 1 \<Longrightarrow> 1 \<le> \<lfloor>u * 6\<rfloor> + 1 \<and> \<lfloor>u * 6\<rfloor> + 1 \<le> (6::int)"
  by (simp add: floor_less_iff le_floor_iff)

lemma die_onto:
  assumes "1 \<le> r" "r \<le> (6::int)"
  shows "\<exists>u::real. 0 \<le> u \<and> u < 1 \<and> \<lfloor>u * 6\<rfloor> + 1 = r"
proof -
  let ?u = "(real_of_int r - 1) / 6"
  have "?u * 6 = real_of_int (r - 1)" by simp
  then have "\<lfloor>?u * 6\<rfloor> = r - 1" by (metis floor_of_int)
  moreover have "0 \<le> ?u" "?u < 1" using assms by simp_all
  ultimately show ?thesis by (intro exI[of _ ?u]) simp
qed

subsection \<open>The roll moves the token to the clamped sum\<close>

text \<open>
  Claim C1. For every starting position \<open>p\<close> in \<open>[0, 23]\<close> and every die roll \<open>r\<close> in
  \<open>[1, 6]\<close>, an accepted roll sets \<open>playerPosition\<close> to \<open>min (p + r) 23\<close>: the position
  never exceeds 23 and never decreases, and when \<open>p + r\<close> reaches or exceeds 23 the position
  is 23 and \<open>isGameOver\<close> is set. The die is \<open>\<lfloor>u * 6\<rfloor> + 1\<close> for the random number \<open>u\<close>;
  the first conjunct says that every \<open>r\<close> in \<open>[1, 6]\<close> is the die of some \<open>u\<close> in \<open>[0, 1)\<close>.
\<close>

theorem roll_position_bounds:
  assumes "0 \<le> playerPosition (gameState sim)" "playerPosition (gameState sim) \<le> 23"
    and "1 \<le> r" "r \<le> 6" "\<lfloor>u1 * 6\<rfloor> + 1 = r"
    and "\<not> isGameOver (gameState sim)" "\<not> isRolling sim"
  shows "(\<exists>u::real. 0 \<le> u \<and> u < 1 \<and> \<lfloor>u * 6\<rfloor> + 1 = r)
       \<and> (\<exists>sim' scheduled.
            handleRoll env design u1 u2 sim = Inr (sim', scheduled)
          \<and> playerPosition (gameState sim') = min (playerPosition (gameState sim) + r) 23
          \<and> playerPosition (gameState sim') \<le> 23
          \<and> playerPosition (gameState sim) \<le> playerPosition (gameState sim')
          \<and> (23 \<le> playerPosition (gameState sim) + r \<longrightarrow>
                playerPosition (gameState sim') = 23 \<and> isGameOver (gameState sim')))"
proof
  show "\<exists>u::real. 0 \<le> u \<and> u < 1 \<and> \<lfloor>u * 6\<rfloor> + 1 = r"
    using assms(3,4) by (rule die_onto)
next
  let ?np = "playerPosition (gameState sim) + r"
  show "\<exists>sim' scheduled.
            handleRoll env design u1 u2 sim = Inr (sim', scheduled)
          \<and> playerPosition (gameState sim') = min (playerPosition (gameState sim) + r) 23
          \<and> playerPosition (gameState sim') \<le> 23
          \<and> playerPosition (gameState sim) \<le> playerPosition (gameState sim')
          \<and> (23 \<le> playerPosition (gameState sim) + r \<longrightarrow>
                playerPosition (gameState sim') = 23 \<and> isGameOver (gameState sim'))"
  proof (cases "23 \<le> ?np")
    case True
    then show ?thesis
      using assms handleRoll_finish[of sim u1 env design u2] by auto
  next
    case False
    note lt = this
    show ?thesis
    proof (cases "tile_for (tileTypes design) (nat ?np)")
      case None
      then show ?thesis
        using assms lt handleRoll_moved_plain[of sim ?np u1 design env u2] by auto
    next
      case (Some tile)
      then show ?thesis
        using assms lt handleRoll_moved_tile[of sim ?np u1 design tile env u2] by auto
    qed
  qed
qed

theorem roll_position_bounds_witness:
  "(0::int) \<le> playerPosition (gameState (sim_at 20)) \<and> playerPosition (gameState (sim_at 20)) \<le> 23
   \<and> \<lfloor>(2/3::real) * 6\<rfloor> + 1 = 5
   \<and> \<not> isGameOver (gameState (sim_at 20)) \<and> \<not> isRolling (sim_at 20)
   \<and> (\<exists>sim' scheduled.
         handleRoll failing_audio scenario_design (2/3) (1/2) (sim_at 20) = Inr (sim', scheduled)
       \<and> playerPosition (gameState sim') = 23 \<and> isGameOver (gameState sim'))"
  using roll_position_bounds[of "sim_at 20" 5 "2/3" failing_audio scenario_design "1/2"]
  by (auto simp add: sim_at_def initialSim_def initialGameState_def)

subsection \<open>A finished game ignores the roll\<close>

text \<open>
  Claim C2. In every state in which \<open>isGameOver\<close> is true the roll action is a no-op: the
  position, the turn, the flag, the effect, the card and the log are unchanged, and no
  card draw is scheduled. Of the two actions of the player only the reset changes such a
  state: it puts the opening values back, with its own log line.
\<close>

theorem game_over_roll_noop:
  assumes "isGameOver (gameState sim)"
  shows "handleRoll env design u1 u2 sim = Inr (sim, False)
       \<and> gameState (resetGame sim) =
           \<lparr> playerPosition = 0, log_entries = [''Game reset. Ready to start!''], turn = 1,
             isGameOver = False, currentEffect = None, drawnCard = None \<rparr>
       \<and> gameState (resetGame sim) \<noteq> gameState sim"
proof -
  have "isGameOver (gameState (resetGame sim)) \<noteq> isGameOver (gameState sim)"
    using assms by (simp add: resetGame_def)
  then have "gameState (resetGame sim) \<noteq> gameState sim" by auto
  then show ?thesis
    using assms by (simp add: handleRoll_def resetGame_def)
qed

theorem game_over_roll_noop_witness:
  "isGameOver (gameState sim_over)
   \<and> handleRoll failing_audio scenario_design (1/2) (1/2) sim_over = Inr (sim_over, False)
   \<and> gameState (resetGame sim_over) \<noteq> gameState sim_over"
  using game_over_roll_noop[of sim_over failing_audio scenario_design "1/2" "1/2"]
  by (simp add: sim_over_def initialSim_def initialGameState_def)

subsection \<open>The log lines of a roll\<close>

text \<open>The new log lines of an accepted roll, by the branch it takes.\<close>

lemma accepted_roll_log:
  assumes "\<not> isGameOver (gameState sim)" "\<not> isRolling sim"
    and "roll = \<lfloor>u1 * 6\<rfloor> + 1"
    and "np = playerPosition (gameState sim) + roll"
  shows "\<exists>sim' scheduled new.
            handleRoll env design u1 u2 sim = Inr (sim', scheduled)
          \<and> log_entries (gameState sim') = new @ log_entries (gameState sim)
          \<and> (length new = 1 \<or> length new = 2)
          \<and> (23 \<le> np \<longrightarrow> new = [msg_win design, msg_finish roll])
          \<and> (np < 23 \<and> (np \<le> 0 \<or> tileTypes design = []) \<longrightarrow> new = [msg_moved roll np])
          \<and> (0 < np \<and> np < 23 \<and> tileTypes design \<noteq> [] \<longrightarrow>
                new = [msg_tile (tileTypes design ! (nat np mod length (tileTypes design))),
                       msg_moved roll np])"
proof -
  consider (finish) "23 \<le> np"
    | (plain) "np < 23" "np \<le> 0 \<or> tileTypes design = []"
    | (tile) "0 < np" "np < 23" "tileTypes design \<noteq> []"
    by linarith
  then show ?thesis
  proof cases
    case finish
    then have "handleRoll env design u1 u2 sim =
       Inr (sim\<lparr>gameState := (gameState sim)
            \<lparr>playerPosition := 23,
              log_entries := msg_win design # msg_finish roll # log_entries (gameState sim),
              turn := turn (gameState sim) + 1,
              isGameOver := True,
              currentEffect := None,
              drawnCard := None\<rparr>\<rparr>, False)"
      using assms handleRoll_finish[of sim u1 env design u2] by simp
    then show ?thesis using finish
      by (auto intro!: exI[of _ "[msg_win design, msg_finish roll]"])
  next
    case plain
    then have "np \<le> 0 \<or> tile_for (tileTypes design) (nat np) = None"
      by (auto simp: tile_for_def)
    then have "handleRoll env design u1 u2 sim =
       Inr (sim\<lparr>gameState := (gameState sim)
            \<lparr>playerPosition := np,
              log_entries := msg_moved roll np # log_entries (gameState sim),
              turn := turn (gameState sim) + 1,
              currentEffect := None,
              drawnCard := None\<rparr>\<rparr>, False)"
      using assms plain(1) handleRoll_moved_plain[of sim np u1 design env u2] by simp
    then show ?thesis using plain
      by (auto intro!: exI[of _ "[msg_moved roll np]"])
  next
    case tile
    let ?t = "tileTypes design ! (nat np mod length (tileTypes design))"
    have "tile_for (tileTypes design) (nat np) = Some ?t"
      using tile(3) by (simp add: tile_for_def)
    then have "handleRoll env design u1 u2 sim =
       Inr (sim\<lparr>gameState := (gameState sim)
            \<lparr>playerPosition := np,
              log_entries := msg_tile ?t # msg_moved roll np # log_entries (gameState sim),
              turn := turn (gameState sim) + 1,
              currentEffect := Some (effect ?t),
              drawnCard := None\<rparr>\<rparr>,
          u2 < 0.3 \<or> includes_str (toLowerCase (effect ?t)) ''card'')"
      using assms tile(1,2) handleRoll_moved_tile[of sim np u1 design ?t env u2] by simp
    then show ?thesis using tile
      by (auto intro!: exI[of _ "[msg_tile ?t, msg_moved roll np]"])
  qed
qed

text \<open>
  Claim C3, as amended. Every accepted roll prepends one or two new entries to the front of
  the log: two when the roll ends the game (the line of the winning condition above the
  line of the roll), one when the token stops on a space without a tile, two when it stops
  on a tile (the line of the tile above the line of the roll). The reset, from any state
  (a finished game included), replaces the whole log with a single new entry. The line of
  a card draw that the roll schedules is prepended later, by \<open>drawCard\<close>.
\<close>

theorem roll_log_entries:
  "(\<not> isGameOver (gameState sim) \<and> \<not> isRolling sim
      \<and> roll = \<lfloor>u1 * 6\<rfloor> + 1 \<and> np = playerPosition (gameState sim) + roll \<longrightarrow>
      (\<exists>sim' scheduled new.
            handleRoll env design u1 u2 sim = Inr (sim', scheduled)
          \<and> log_entries (gameState sim') = new @ log_entries (gameState sim)
          \<and> (length new = 1 \<or> length new = 2)
          \<and> (23 \<le> np \<longrightarrow> new = [msg_win design, msg_finish roll])
          \<and> (np < 23 \<and> (np \<le> 0 \<or> tileTypes design = []) \<longrightarrow> new = [msg_moved roll np])
          \<and> (0 < np \<and> np < 23 \<and> tileTypes design \<noteq> [] \<longrightarrow>
                new = [msg_tile (tileTypes design ! (nat np mod length (tileTypes design))),
                       msg_moved roll np])))
   \<and> log_entries (gameState (resetGame any_sim)) = [''Game reset. Ready to start!'']"
proof (intro conjI impI)
  show "log_entries (gameState (resetGame any_sim)) = [''Game reset. Ready to start!'']"
    by (simp add: resetGame_def)
next
  assume h: "\<not> isGameOver (gameState sim) \<and> \<not> isRolling sim
      \<and> roll = \<lfloor>u1 * 6\<rfloor> + 1 \<and> np = playerPosition (gameState sim) + roll"
  then have "\<not> isGameOver (gameState sim)" "\<not> isRolling sim"
    "roll = \<lfloor>u1 * 6\<rfloor> + 1" "np = playerPosition (gameState sim) + roll"
    by simp_all
  then show "\<exists>sim' scheduled new.
            handleRoll env design u1 u2 sim = Inr (sim', scheduled)
          \<and> log_entries (gameState sim') = new @ log_entries (gameState sim)
          \<and> (length new = 1 \<or> length new = 2)
          \<and> (23 \<le> np \<longrightarrow> new = [msg_win design, msg_finish roll])
          \<and> (np < 23 \<and> (np \<le> 0 \<or> tileTypes design = []) \<longrightarrow> new = [msg_moved roll np])
          \<and> (0 < np \<and> np < 23 \<and> tileTypes design \<noteq> [] \<longrightarrow>
                new = [msg_tile (tileTypes design ! (nat np mod length (tileTypes design))),
                       msg_moved roll np])"
    by (rule accepted_roll_log)
qed

theorem roll_log_entries_witness:
  "\<not> isGameOver (gameState (sim_at 0)) \<and> \<not> isRolling (sim_at 0)
   \<and> (4::int) = \<lfloor>(1/2::real) * 6\<rfloor> + 1
   \<and> (4::int) = playerPosition (gameState (sim_at 0)) + 4
   \<and> tileTypes scenario_design \<noteq> []
   \<and> (\<exists>sim' scheduled.
         handleRoll no_audio scenario_design (1/2) (1/2) (sim_at 0) = Inr (sim', scheduled)
       \<and> log_entries (gameState sim') =
           [msg_tile (scenario_tiles ! 0), msg_moved 4 4] @ log_entries (gameState (sim_at 0)))
   \<and> isGameOver (gameState sim_over)
   \<and> log_entries (gameState (resetGame sim_over)) = [''Game reset. Ready to start!'']"
proof -
  have m: "(4::nat) mod Suc (Suc 0) = 0" by presburger
  have o: "isGameOver (gameState sim_over)"
    by (simp add: sim_over_def)
  show ?thesis
    using roll_log_entries[of "sim_at 0" 4 "1/2" 4 no_audio scenario_design "1/2" sim_over] o
    by (auto simp add: sim_at_def initialSim_def initialGameState_def scenario_design_def
        design_with_def scenario_tiles_def m)
qed

text \<open>
  Claim C3 as stated says that a roll that ends the game prepends one entry, which covers
  both the roll and the winning condition. From space 22 with a die of 5 the roll ends the
  game and the log gains two entries, one for each text.
\<close>

theorem finishing_roll_adds_two_entries:
  "handleRoll no_audio scenario_design (2/3) (1/2) (sim_at 22) =
     Inr (\<lparr> gameState =
             \<lparr> playerPosition = 23,
               log_entries =
                 [emoji_trophy @ '' First to the finish wins'',
                  emoji_die @ '' Rolled a 5. Reached the Finish!'',
                  ''Welcome to the Playtest! Roll the dice to begin.''],
               turn = 2,
               isGameOver = True,
               currentEffect = None,
               drawnCard = None \<rparr>,
            isRolling = False,
            soundEnabled = True \<rparr>, False)
   \<and> log_entries (gameState (sim_at 22)) = [''Welcome to the Playtest! Roll the dice to begin.'']"
  by (simp add: handleRoll_finish sim_at_def initialSim_def initialGameState_def
      msg_win_def msg_finish_def scenario_design_def design_with_def string_of_int_def
      digit_char_def)

subsection \<open>No tile effect on the first and the last space\<close>

text \<open>
  Claim C4. A roll that lands the token exactly on index 0 or on index 23 never sets
  \<open>currentEffect\<close>: the tile branch runs only when the new position is strictly between 0
  and 23, so a roll that ends the game (clamped to 23) passes the tile branch by, and
  \<open>currentEffect\<close> is null afterwards, with no card draw scheduled. The statement holds
  for every integer position and every die, so that index 0, which no roll from a space
  of the board reaches, is covered as well.
\<close>

theorem boundary_landing_no_effect:
  assumes "\<not> isGameOver (gameState sim)" "\<not> isRolling sim"
    and "np = playerPosition (gameState sim) + (\<lfloor>u1 * 6\<rfloor> + 1)"
  shows "\<exists>sim' scheduled.
           handleRoll env design u1 u2 sim = Inr (sim', scheduled)
         \<and> playerPosition (gameState sim') = (if 23 \<le> np then 23 else np)
         \<and> (playerPosition (gameState sim') = 0 \<or> playerPosition (gameState sim') = 23
              \<longrightarrow> currentEffect (gameState sim') = None \<and> \<not> scheduled)
         \<and> (currentEffect (gameState sim') \<noteq> None
              \<longrightarrow> 0 < playerPosition (gameState sim') \<and> playerPosition (gameState sim') < 23)
         \<and> (23 \<le> np \<longrightarrow> isGameOver (gameState sim'))"
proof -
  consider (finish) "23 \<le> np"
    | (plain) "np < 23" "np \<le> 0 \<or> tile_for (tileTypes design) (nat np) = None"
    | (tile) "0 < np" "np < 23" "tile_for (tileTypes design) (nat np) \<noteq> None"
    by linarith
  then show ?thesis
  proof cases
    case finish
    then show ?thesis
      using assms handleRoll_finish[of sim u1 env design u2] by auto
  next
    case plain
    then show ?thesis
      using assms handleRoll_moved_plain[of sim np u1 design env u2] by auto
  next
    case tile
    then obtain t where "tile_for (tileTypes design) (nat np) = Some t" by auto
    then show ?thesis
      using assms tile(1,2) handleRoll_moved_tile[of sim np u1 design t env u2] by auto
  qed
qed

theorem boundary_landing_no_effect_witness:
  "\<not> isGameOver (gameState (sim_at 22)) \<and> \<not> isRolling (sim_at 22)
   \<and> (27::int) = playerPosition (gameState (sim_at 22)) + (\<lfloor>(2/3::real) * 6\<rfloor> + 1)
   \<and> (\<exists>sim' scheduled.
         handleRoll no_audio scenario_design (2/3) (1/10) (sim_at 22) = Inr (sim', scheduled)
       \<and> playerPosition (gameState sim') = 23
       \<and> currentEffect (gameState sim') = None \<and> \<not> scheduled
       \<and> isGameOver (gameState sim'))"
  using boundary_landing_no_effect[of "sim_at 22" 27 "2/3" no_audio scenario_design "1/10"]
  by (auto simp add: sim_at_def initialSim_def initialGameState_def)

subsection \<open>The board\<close>

text \<open>
  Claim C5. The board has exactly 24 spaces on a grid of 4 rows and 6 columns. Row \<open>i div 6\<close>
  lists its columns from left to right when it is even and from right to left when it is
  odd; the column maps linearly to \<open>x\<close> in \<open>[10, 90]\<close> and the row maps linearly to \<open>y\<close> from
  90 (row 0, the bottom) down to 10. Space 0 is START, space 23 is FINISH, and every other
  space \<open>i\<close> is NORMAL with the tile \<open>tileTypes[i mod tileTypes.length]\<close>.
\<close>

theorem board_layout:
  "length (spaces design) = 24
   \<and> (\<forall>i<24.
        x_space (spaces design ! i)
          = 10 + 80 * (real (if even (i div 6) then i mod 6 else 5 - i mod 6) / 5)
      \<and> y_space (spaces design ! i) = 90 - 80 * (real (i div 6) / 3)
      \<and> 10 \<le> x_space (spaces design ! i) \<and> x_space (spaces design ! i) \<le> 90
      \<and> 10 \<le> y_space (spaces design ! i) \<and> y_space (spaces design ! i) \<le> 90
      \<and> type_space (spaces design ! i)
          = (if i = 0 then START else if i = 23 then FINISH else NORMAL)
      \<and> (i = 0 \<or> i = 23 \<longrightarrow> tileDetails (spaces design ! i) = None)
      \<and> (0 < i \<and> i < 23 \<and> tileTypes design \<noteq> [] \<longrightarrow>
            tileDetails (spaces design ! i)
              = Some (tileTypes design ! (i mod length (tileTypes design)))))"
proof (intro conjI allI impI)
  show "length (spaces design) = 24" by (rule length_spaces)
next
  fix i :: nat assume i: "i < 24"
  then have row: "i div 6 \<le> 3" by simp
  have col: "i mod 6 \<le> 5" by (simp add: less_Suc_eq_le[symmetric])
  have s: "spaces design ! i = space_at design i" using i by (rule nth_spaces)
  show x: "x_space (spaces design ! i)
          = 10 + 80 * (real (if even (i div 6) then i mod 6 else 5 - i mod 6) / 5)"
    unfolding s by (simp add: space_at_def Let_def even_iff_mod_2_eq_zero)
  show y: "y_space (spaces design ! i) = 90 - 80 * (real (i div 6) / 3)"
    unfolding s by (simp add: space_at_def Let_def)
  show "10 \<le> x_space (spaces design ! i)" unfolding x by simp
  show "x_space (spaces design ! i) \<le> 90" unfolding x using col by simp
  show "10 \<le> y_space (spaces design ! i)" unfolding y using row by simp
  show "y_space (spaces design ! i) \<le> 90" unfolding y by simp
  show "type_space (spaces design ! i)
          = (if i = 0 then START else if i = 23 then FINISH else NORMAL)"
    unfolding s by (simp add: space_at_def Let_def TOTAL_SPACES_def)
  show "tileDetails (spaces design ! i) = None" if "i = 0 \<or> i = 23"
    unfolding s using that by (auto simp add: space_at_def Let_def TOTAL_SPACES_def)
  show "tileDetails (spaces design ! i)
              = Some (tileTypes design ! (i mod length (tileTypes design)))"
    if "0 < i \<and> i < 23 \<and> tileTypes design \<noteq> []"
    unfolding s using that by (simp add: tileDetails_space_at tile_for_def)
qed

theorem board_layout_witness:
  "(7::nat) < 24 \<and> (23::nat) < 24 \<and> tileTypes scenario_design \<noteq> []
   \<and> x_space (spaces scenario_design ! 7) = 74
   \<and> y_space (spaces scenario_design ! 7) = 190 / 3
   \<and> type_space (spaces scenario_design ! 7) = NORMAL
   \<and> tileDetails (spaces scenario_design ! 7) = Some (scenario_tiles ! 1)
   \<and> tileDetails (spaces scenario_design ! 23) = None"
proof -
  have t: "tileTypes scenario_design = scenario_tiles"
    by (simp add: scenario_design_def design_with_def)
  have l: "length scenario_tiles = 2"
    by (simp add: scenario_tiles_def)
  have n: "scenario_tiles \<noteq> []" "7 mod length scenario_tiles = 1"
    unfolding l by (simp_all add: scenario_tiles_def)
  have a: "(7::nat) < 24" "(23::nat) < 24" by simp_all
  show ?thesis
    using board_layout[of scenario_design, THEN conjunct2, rule_format, OF a(1)]
          board_layout[of scenario_design, THEN conjunct2, rule_format, OF a(2)]
    by (simp add: t n)
qed

subsection \<open>The coordinates do not depend on the design\<close>

text \<open>
  Claim C9. The coordinates of every space depend only on its index and on the constants of
  the grid: any two designs, also designs with different numbers of tile types, give the
  same list of 24 coordinate pairs.
\<close>

theorem layout_independent_of_design:
  "map (\<lambda>s. (x_space s, y_space s)) (spaces design1)
     = map (\<lambda>s. (x_space s, y_space s)) (spaces design2)"
  by (simp add: spaces_def space_at_def Let_def)

subsection \<open>A design without tile types\<close>

text \<open>
  Claim C10. If \<open>design.tileTypes\<close> is empty the simulation still does not fail: the board
  has 24 spaces, none of which has a tile (the read at the index \<open>i mod 0\<close> gives
  \<open>undefined\<close>), and every accepted roll completes with the tile branch skipped:
  \<open>currentEffect\<close> is not set, no card draw is scheduled, and the only new log lines are
  those of the roll itself.
\<close>

theorem empty_tile_types_safe:
  assumes "tileTypes design = []"
  shows "length (spaces design) = 24
       \<and> (\<forall>i<24. tileDetails (spaces design ! i) = None
                 \<and> type_space (spaces design ! i)
                      = (if i = 0 then START else if i = 23 then FINISH else NORMAL))
       \<and> (\<not> isGameOver (gameState sim) \<and> \<not> isRolling sim \<longrightarrow>
            (\<exists>sim'.
               handleRoll env design u1 u2 sim = Inr (sim', False)
             \<and> currentEffect (gameState sim') = None
             \<and> log_entries (gameState sim')
                 = (if 23 \<le> playerPosition (gameState sim) + (\<lfloor>u1 * 6\<rfloor> + 1)
                    then [msg_win design, msg_finish (\<lfloor>u1 * 6\<rfloor> + 1)]
                    else [msg_moved (\<lfloor>u1 * 6\<rfloor> + 1)
                            (playerPosition (gameState sim) + (\<lfloor>u1 * 6\<rfloor> + 1))])
                   @ log_entries (gameState sim)))"
proof (intro conjI allI impI)
  show "length (spaces design) = 24" by (rule length_spaces)
next
  fix i :: nat assume i: "i < 24"
  show "tileDetails (spaces design ! i) = None"
    using i assms by (simp add: nth_spaces space_at_def Let_def tile_for_def)
  show "type_space (spaces design ! i)
          = (if i = 0 then START else if i = 23 then FINISH else NORMAL)"
    using i by (simp add: nth_spaces space_at_def Let_def TOTAL_SPACES_def)
next
  assume acc: "\<not> isGameOver (gameState sim) \<and> \<not> isRolling sim"
  let ?roll = "\<lfloor>u1 * 6\<rfloor> + 1"
  let ?np = "playerPosition (gameState sim) + ?roll"
  show "\<exists>sim'.
               handleRoll env design u1 u2 sim = Inr (sim', False)
             \<and> currentEffect (gameState sim') = None
             \<and> log_entries (gameState sim')
                 = (if 23 \<le> ?np then [msg_win design, msg_finish ?roll]
                    else [msg_moved ?roll ?np])
                   @ log_entries (gameState sim)"
  proof (cases "23 \<le> ?np")
    case True
    then show ?thesis
      using acc handleRoll_finish[of sim u1 env design u2] by auto
  next
    case False
    moreover have "tile_for (tileTypes design) (nat ?np) = None"
      using assms by (simp add: tile_for_def)
    ultimately show ?thesis
      using acc handleRoll_moved_plain[of sim ?np u1 design env u2] by auto
  qed
qed

theorem empty_tile_types_safe_witness:
  "tileTypes (design_with [] scenario_cards) = []
   \<and> (5::nat) < 24
   \<and> \<not> isGameOver (gameState (sim_at 0)) \<and> \<not> isRolling (sim_at 0)
   \<and> tileDetails (spaces (design_with [] scenario_cards) ! 5) = None
   \<and> (\<exists>sim'.
         handleRoll failing_audio (design_with [] scenario_cards) (1/2) 0 (sim_at 0)
           = Inr (sim', False)
       \<and> currentEffect (gameState sim') = None
       \<and> log_entries (gameState sim') = msg_moved 4 4 # log_entries (gameState (sim_at 0)))"
proof -
  have e: "tileTypes (design_with [] scenario_cards) = []"
    by (simp add: design_with_def)
  show ?thesis
    using empty_tile_types_safe[OF e, of "sim_at 0" failing_audio "1/2" 0]
    by (auto simp add: e sim_at_def initialSim_def initialGameState_def)
qed

subsection \<open>When a card draw is scheduled\<close>

lemma draw_a_card_contains: "contains_card_ci ''Draw a card''"
  unfolding includes_card_iff[symmetric]
  by (simp add: toLowerCase_def toLowerChar_def)

text \<open>
  Claim C6. After an accepted roll that does not end the game and lands on a tile strictly
  between start and finish, a card draw is scheduled if and only if the random number is
  below 0.3 or the effect text of the tile contains "card" in any mix of cases; for the
  effect text "Draw a card" the draw is scheduled whatever the random number is.
\<close>

theorem card_draw_scheduled_iff:
  assumes "\<not> isGameOver (gameState sim)" "\<not> isRolling sim"
    and "np = playerPosition (gameState sim) + (\<lfloor>u1 * 6\<rfloor> + 1)"
    and "0 < np" "np < 23"
    and "tileTypes design \<noteq> []"
    and "tile = tileTypes design ! (nat np mod length (tileTypes design))"
  shows "\<exists>sim'.
           handleRoll env design u1 u2 sim
             = Inr (sim', u2 < 0.3 \<or> contains_card_ci (effect tile))
         \<and> playerPosition (gameState sim') = np
         \<and> currentEffect (gameState sim') = Some (effect tile)
         \<and> (effect tile = ''Draw a card'' \<longrightarrow>
               handleRoll env design u1 u2 sim = Inr (sim', True))"
proof -
  have "tile_for (tileTypes design) (nat np) = Some tile"
    using assms(6,7) by (simp add: tile_for_def)
  then have "handleRoll env design u1 u2 sim =
     Inr (sim\<lparr>gameState := (gameState sim)
            \<lparr>playerPosition := np,
              log_entries := msg_tile tile # msg_moved (\<lfloor>u1 * 6\<rfloor> + 1) np
                               # log_entries (gameState sim),
              turn := turn (gameState sim) + 1,
              currentEffect := Some (effect tile),
              drawnCard := None\<rparr>\<rparr>,
          u2 < 0.3 \<or> contains_card_ci (effect tile))"
    using assms(1-5) handleRoll_moved_tile[of sim np u1 design tile env u2]
    by (simp add: includes_card_iff)
  then show ?thesis
    using draw_a_card_contains by auto
qed

theorem card_draw_scheduled_iff_witness:
  "\<not> isGameOver (gameState (sim_at 0)) \<and> \<not> isRolling (sim_at 0)
   \<and> (4::int) = playerPosition (gameState (sim_at 0)) + (\<lfloor>(1/2::real) * 6\<rfloor> + 1)
   \<and> tileTypes scenario_design \<noteq> []
   \<and> scenario_tiles ! 0 = tileTypes scenario_design ! (nat 4 mod length (tileTypes scenario_design))
   \<and> effect (scenario_tiles ! 0) = ''Draw a card''
   \<and> \<not> (9/10::real) < 0.3
   \<and> (\<exists>sim'. handleRoll no_audio scenario_design (1/2) (9/10) (sim_at 0) = Inr (sim', True)
         \<and> playerPosition (gameState sim') = 4
         \<and> currentEffect (gameState sim') = Some ''Draw a card'')"
proof -
  have t: "tileTypes scenario_design = scenario_tiles"
    by (simp add: scenario_design_def design_with_def)
  have l: "length scenario_tiles = 2" "scenario_tiles \<noteq> []"
    by (simp_all add: scenario_tiles_def)
  have n: "nat 4 mod length scenario_tiles = 0"
    unfolding l by simp
  have e: "effect (scenario_tiles ! 0) = ''Draw a card''"
    by (simp add: scenario_tiles_def)
  have a: "\<not> isGameOver (gameState (sim_at 0))" "\<not> isRolling (sim_at 0)"
    "(4::int) = playerPosition (gameState (sim_at 0)) + (\<lfloor>(1/2::real) * 6\<rfloor> + 1)"
    by (simp_all add: sim_at_def initialSim_def initialGameState_def)
  have b: "(0::int) < 4" "(4::int) < 23" "tileTypes scenario_design \<noteq> []"
    "scenario_tiles ! 0
       = tileTypes scenario_design ! (nat 4 mod length (tileTypes scenario_design))"
    by (simp_all add: t l n)
  have c: "\<not> (9/10::real) < 0.3" by simp
  from card_draw_scheduled_iff[OF a b, of no_audio "9/10"]
  obtain sim' where
    "handleRoll no_audio scenario_design (1/2) (9/10) (sim_at 0) = Inr (sim', True)"
    "playerPosition (gameState sim') = 4"
    "currentEffect (gameState sim') = Some ''Draw a card''"
    unfolding e by blast
  then show ?thesis
    using a b e c by blast
qed

subsection \<open>The card draw\<close>

text \<open>\<open>\<lfloor>v * n\<rfloor>\<close> picks index \<open>k\<close> exactly for \<open>v\<close> in \<open>[k / n, (k + 1) / n)\<close>: every index
  has an interval of the same length, so a uniform \<open>v\<close> gives a uniform index.\<close>

lemma index_interval:
  fixes v :: real
  assumes "0 < n" "0 \<le> v"
  shows "(nat \<lfloor>v * real n\<rfloor> = k) = (real k / real n \<le> v \<and> v < (real k + 1) / real n)"
proof -
  have nn: "0 \<le> v * real n" using assms by simp
  then have "(nat \<lfloor>v * real n\<rfloor> = k) = (\<lfloor>v * real n\<rfloor> = int k)"
    by (metis floor_less_zero int_nat_eq nat_int not_less) 
  also have "\<dots> = (real k \<le> v * real n \<and> v * real n < real k + 1)"
    by (simp add: floor_eq_iff)
  also have "\<dots> = (real k / real n \<le> v \<and> v < (real k + 1) / real n)"
    using assms(1) by (simp add: pos_divide_le_eq pos_less_divide_eq)
  finally show ?thesis .
qed

lemma index_in_range:
  fixes v :: real
  assumes "0 < n" "0 \<le> v" "v < 1"
  shows "0 \<le> \<lfloor>v * real n\<rfloor>" "\<lfloor>v * real n\<rfloor> < int n" "nat \<lfloor>v * real n\<rfloor> < n"
proof -
  have "0 \<le> v * real n" using assms by simp
  then show a: "0 \<le> \<lfloor>v * real n\<rfloor>" by simp
  have "v * real n < real n" using assms by simp
  then show b: "\<lfloor>v * real n\<rfloor> < int n" by (simp add: floor_less_iff)
  show "nat \<lfloor>v * real n\<rfloor> < n" using a b by linarith
qed

lemma drawCard_picks:
  assumes "cardTypes design \<noteq> []" "0 \<le> v1" "v1 < 1" "0 \<le> v2" "v2 < 1"
    and "ct = cardTypes design ! nat \<lfloor>v1 * real (length (cardTypes design))\<rfloor>"
    and "examples ct \<noteq> []"
    and "ex = examples ct ! nat \<lfloor>v2 * real (length (examples ct))\<rfloor>"
  shows "drawCard env design v1 v2 sim =
     Inr (sim\<lparr>gameState := (gameState sim)
            \<lparr>drawnCard := Some \<lparr> type_drawn = type ct, content = Some ex \<rparr>,
              log_entries := msg_card ct (Some ex) # log_entries (gameState sim)\<rparr>\<rparr>)"
proof -
  have n: "0 < length (cardTypes design)" using assms(1) by simp
  have m: "0 < length (examples ct)" using assms(7) by simp
  have k: "element_at (cardTypes design) \<lfloor>v1 * real (length (cardTypes design))\<rfloor> = Inr ct"
    using index_in_range(1,2)[OF n assms(2,3)] assms(6) by (simp add: element_at_def)
  have j: "value_at (examples ct) \<lfloor>v2 * real (length (examples ct))\<rfloor> = Some ex"
    using index_in_range(1,2)[OF m assms(4,5)] assms(8) by (simp add: value_at_def)
  show ?thesis
    using assms(1) k j
    by (cases sim) (simp add: drawCard_def sfx_returns exn_bind_def setGameState_def
        addToLog_def Let_def)
qed

text \<open>
  Claim C7, as amended. The card draw leaves the state entirely unchanged when the design
  has no card types. Otherwise, for random numbers \<open>v1\<close> and \<open>v2\<close> in \<open>[0, 1)\<close>, it selects
  the card type at index \<open>\<lfloor>v1 * n\<rfloor>\<close> of the \<open>n\<close> types (uniformly: each index is chosen on
  an interval of length \<open>1 / n\<close>), and, when the example list of that type is not empty,
  the example at index \<open>\<lfloor>v2 * m\<rfloor>\<close> of its \<open>m\<close> examples (uniformly again); it sets
  \<open>drawnCard\<close> to that type and example and prepends exactly one log line, which quotes the
  example.
\<close>

theorem draw_card_result:
  "(cardTypes design = [] \<longrightarrow> drawCard env design v1 v2 sim = Inr sim)
   \<and> (cardTypes design \<noteq> [] \<and> 0 \<le> v1 \<and> v1 < 1 \<and> 0 \<le> v2 \<and> v2 < 1 \<longrightarrow>
        (let n = length (cardTypes design);
             k = nat \<lfloor>v1 * real n\<rfloor>;
             ct = cardTypes design ! k;
             m = length (examples ct);
             j = nat \<lfloor>v2 * real m\<rfloor>
         in k < n
          \<and> (\<forall>k'<n. (k = k') = (real k' / real n \<le> v1 \<and> v1 < (real k' + 1) / real n))
          \<and> (examples ct \<noteq> [] \<longrightarrow>
                j < m
              \<and> (\<forall>j'<m. (j = j') = (real j' / real m \<le> v2 \<and> v2 < (real j' + 1) / real m))
              \<and> drawCard env design v1 v2 sim =
                  Inr (sim\<lparr>gameState := (gameState sim)
                         \<lparr>drawnCard :=
                            Some \<lparr> type_drawn = type ct, content = Some (examples ct ! j) \<rparr>,
                          log_entries :=
                            (emoji_cards @ '' Drew a '' @ type ct @ '': '' @ [CHR 0x22]
                               @ examples ct ! j @ [CHR 0x22])
                            # log_entries (gameState sim)\<rparr>\<rparr>))))"
proof (intro conjI impI)
  assume "cardTypes design = []"
  then show "drawCard env design v1 v2 sim = Inr sim"
    by (simp add: drawCard_def)
next
  assume h: "cardTypes design \<noteq> [] \<and> 0 \<le> v1 \<and> v1 < 1 \<and> 0 \<le> v2 \<and> v2 < 1"
  define n where "n = length (cardTypes design)"
  define k where "k = nat \<lfloor>v1 * real n\<rfloor>"
  define ct where "ct = cardTypes design ! k"
  define m where "m = length (examples ct)"
  define j where "j = nat \<lfloor>v2 * real m\<rfloor>"
  have n: "0 < n" using h by (simp add: n_def)
  have 1: "k < n" unfolding k_def using index_in_range(3)[OF n] h by simp
  have 2: "\<forall>k'<n. (k = k') = (real k' / real n \<le> v1 \<and> v1 < (real k' + 1) / real n)"
    unfolding k_def using index_interval[OF n, of v1] h by simp
  have 3: "j < m
       \<and> (\<forall>j'<m. (j = j') = (real j' / real m \<le> v2 \<and> v2 < (real j' + 1) / real m))
       \<and> drawCard env design v1 v2 sim =
            Inr (sim\<lparr>gameState := (gameState sim)
                   \<lparr>drawnCard :=
                      Some \<lparr> type_drawn = type ct, content = Some (examples ct ! j) \<rparr>,
                    log_entries :=
                      (emoji_cards @ '' Drew a '' @ type ct @ '': '' @ [CHR 0x22]
                         @ examples ct ! j @ [CHR 0x22])
                      # log_entries (gameState sim)\<rparr>\<rparr>)"
    if ne: "examples ct \<noteq> []"
  proof -
    have m: "0 < m" using ne by (simp add: m_def)
    have a: "j < m" unfolding j_def using index_in_range(3)[OF m] h by simp
    have b: "\<forall>j'<m. (j = j') = (real j' / real m \<le> v2 \<and> v2 < (real j' + 1) / real m)"
      unfolding j_def using index_interval[OF m, of v2] h by simp
    have c: "drawCard env design v1 v2 sim =
       Inr (sim\<lparr>gameState := (gameState sim)
            \<lparr>drawnCard := Some \<lparr> type_drawn = type ct, content = Some (examples ct ! j) \<rparr>,
              log_entries := msg_card ct (Some (examples ct ! j))
                               # log_entries (gameState sim)\<rparr>\<rparr>)"
      using h ne by (intro drawCard_picks) (simp_all add: ct_def k_def n_def j_def m_def)
    show ?thesis using a b c by (simp add: msg_card_def string_of_opt_def)
  qed
  show "let n = length (cardTypes design);
             k = nat \<lfloor>v1 * real n\<rfloor>;
             ct = cardTypes design ! k;
             m = length (examples ct);
             j = nat \<lfloor>v2 * real m\<rfloor>
         in k < n
          \<and> (\<forall>k'<n. (k = k') = (real k' / real n \<le> v1 \<and> v1 < (real k' + 1) / real n))
          \<and> (examples ct \<noteq> [] \<longrightarrow>
                j < m
              \<and> (\<forall>j'<m. (j = j') = (real j' / real m \<le> v2 \<and> v2 < (real j' + 1) / real m))
              \<and> drawCard env design v1 v2 sim =
                  Inr (sim\<lparr>gameState := (gameState sim)
                         \<lparr>drawnCard :=
                            Some \<lparr> type_drawn = type ct, content = Some (examples ct ! j) \<rparr>,
                          log_entries :=
                            (emoji_cards @ '' Drew a '' @ type ct @ '': '' @ [CHR 0x22]
                               @ examples ct ! j @ [CHR 0x22])
                            # log_entries (gameState sim)\<rparr>\<rparr>))"
    unfolding Let_def using 1 2 3 unfolding j_def m_def ct_def k_def n_def by blast
qed

theorem draw_card_result_witness:
  "cardTypes (design_with scenario_tiles []) = []
   \<and> drawCard failing_audio (design_with scenario_tiles []) (1/2) (1/2) (sim_at 4) = Inr (sim_at 4)
   \<and> cardTypes scenario_design \<noteq> []
   \<and> (0::real) \<le> 1/2 \<and> (1/2::real) < 1
   \<and> examples (cardTypes scenario_design ! 1) \<noteq> []
   \<and> drawCard failing_audio scenario_design (1/2) (1/2) (sim_at 4) =
       Inr \<lparr> gameState =
               \<lparr> playerPosition = 4,
                 log_entries =
                   [emoji_cards @ '' Drew a B: '' @ [CHR 0x22] @ ''b1'' @ [CHR 0x22],
                    ''Welcome to the Playtest! Roll the dice to begin.''],
                 turn = 1,
                 isGameOver = False,
                 currentEffect = None,
                 drawnCard = Some \<lparr> type_drawn = ''B'', content = Some ''b1'' \<rparr> \<rparr>,
             isRolling = False,
             soundEnabled = True \<rparr>"
proof -
  have c: "cardTypes scenario_design = scenario_cards"
    "cardTypes (design_with scenario_tiles []) = []"
    by (simp_all add: scenario_design_def design_with_def)
  have l: "length scenario_cards = 2" "scenario_cards \<noteq> []"
    "scenario_cards ! 1 = \<lparr> type = ''B'', description = ''second'', examples = [''b1''] \<rparr>"
    "scenario_cards ! Suc 0 = \<lparr> type = ''B'', description = ''second'', examples = [''b1''] \<rparr>"
    by (simp_all add: scenario_cards_def)
  have f: "nat \<lfloor>(1/2::real) * 2\<rfloor> = 1" "nat \<lfloor>(1/2::real)\<rfloor> = 0"
    by simp_all
  show ?thesis
    using draw_card_result[of "design_with scenario_tiles []" failing_audio "1/2" "1/2" "sim_at 4"]
          draw_card_result[of scenario_design failing_audio "1/2" "1/2" "sim_at 4"]
    by (simp add: c l f Let_def sim_at_def initialSim_def initialGameState_def)
qed

text \<open>
  Claim C7 as stated promises an example from the list of the selected type whenever the
  design has a card type. With a card type whose example list is empty there is no example
  to select: the content of the drawn card is \<open>undefined\<close> and the log line quotes the
  word "undefined".
\<close>

theorem draw_from_empty_examples:
  "cardTypes design_no_examples \<noteq> []
   \<and> drawCard no_audio design_no_examples 0 0 (sim_at 4) =
       Inr \<lparr> gameState =
               \<lparr> playerPosition = 4,
                 log_entries =
                   [emoji_cards @ '' Drew a A: '' @ [CHR 0x22] @ ''undefined'' @ [CHR 0x22],
                    ''Welcome to the Playtest! Roll the dice to begin.''],
                 turn = 1,
                 isGameOver = False,
                 currentEffect = None,
                 drawnCard = Some \<lparr> type_drawn = ''A'', content = None \<rparr> \<rparr>,
             isRolling = False,
             soundEnabled = True \<rparr>"
  by (simp add: drawCard_def design_no_examples_def design_with_def sfx_returns exn_bind_def
      element_at_def value_at_def setGameState_def addToLog_def msg_card_def string_of_opt_def
      sim_at_def initialSim_def initialGameState_def Let_def)

subsection \<open>A failed sound cue does not reach the game\<close>

text \<open>
  Claim C8. For every cue, whatever the audio environment does (no audio context, or any
  call throwing), \<open>playSfx\<close> returns normally. So the cue cannot block or change the
  transition that played it: \<open>handleRoll\<close> and \<open>drawCard\<close> give the same result in every
  audio environment, and \<open>handleRoll\<close> always completes.
\<close>

theorem audio_failure_is_silent:
  "playSfx env ty = Inr ()
   \<and> handleRoll env design u1 u2 sim = handleRoll env' design u1 u2 sim
   \<and> drawCard env design v1 v2 sim = drawCard env' design v1 v2 sim
   \<and> (\<exists>sim' scheduled. handleRoll env design u1 u2 sim = Inr (sim', scheduled))"
proof (intro conjI)
  show "playSfx env ty = Inr ()" by (rule playSfx_returns)
  show "handleRoll env design u1 u2 sim = handleRoll env' design u1 u2 sim"
    by (simp only: handleRoll_def move_or_finish_def tile_effect_def sfx_returns)
  show "drawCard env design v1 v2 sim = drawCard env' design v1 v2 sim"
    by (simp only: drawCard_def sfx_returns)
  show "\<exists>sim' scheduled. handleRoll env design u1 u2 sim = Inr (sim', scheduled)"
  proof (cases "isGameOver (gameState sim) \<or> isRolling sim")
    case True
    then show ?thesis by (auto simp add: handleRoll_rejected)
  next
    case False
    define np where "np = playerPosition (gameState sim) + (\<lfloor>u1 * 6\<rfloor> + 1)"
    consider (finish) "23 \<le> np"
      | (plain) "np < 23" "np \<le> 0 \<or> tile_for (tileTypes design) (nat np) = None"
      | (tile) t where "0 < np" "np < 23" "tile_for (tileTypes design) (nat np) = Some t"
      by (cases "tile_for (tileTypes design) (nat np)") force+
    then show ?thesis
    proof cases
      case finish
      then show ?thesis
        using False handleRoll_finish[of sim u1 env design u2] by (auto simp add: np_def)
    next
      case plain
      then show ?thesis
        using False handleRoll_moved_plain[of sim np u1 design env u2] by (auto simp add: np_def)
    next
      case tile
      then show ?thesis
        using False handleRoll_moved_tile[of sim np u1 design t env u2] by (auto simp add: np_def)
    qed
  qed
qed

theorem audio_failure_is_silent_witness:
  "playSfx_try failing_audio Sfx_move = Inl (AudioError 5)
   \<and> playSfx failing_audio Sfx_move = Inr ()
   \<and> playSfx_try no_audio Sfx_move = Inr ()
   \<and> handleRoll failing_audio scenario_design (1/2) (1/2) (sim_at 0)
       = handleRoll no_audio scenario_design (1/2) (1/2) (sim_at 0)"
  using audio_failure_is_silent[of failing_audio Sfx_move scenario_design "1/2" "1/2" "sim_at 0"
          no_audio]
  by (simp add: playSfx_try_def failing_audio_def no_audio_def createOsc_def)

end
